theory Spec2Isabelle
  imports Complex_Main
begin

section \<open>Data model of the model card (modelCard.js)\<close>

text \<open>
  A JavaScript number as the card compares it. Every finite double is a rational;
  \<open>+0\<close> and \<open>-0\<close> are one value, since both \<open>===\<close> and the Set's SameValueZero
  identify them.
\<close>

datatype jsnum = NaN | NegInfinity | PosInfinity | Fin rat

text \<open>\<open>a === b\<close> on two numbers: \<open>NaN\<close> is equal to nothing, itself included.\<close>

definition strict_eq :: "jsnum \<Rightarrow> jsnum \<Rightarrow> bool" where
  "strict_eq a b = (a \<noteq> NaN \<and> b \<noteq> NaN \<and> a = b)"

text \<open>
  A value that is a string or a number, with JavaScript's truthiness: the empty string,
  \<open>0\<close> and \<open>NaN\<close> are falsy.
\<close>

datatype jsval = Str string | Num jsnum

definition truthy :: "string \<Rightarrow> bool" where
  "truthy s = (s \<noteq> [])"

definition truthy_val :: "jsval \<Rightarrow> bool" where
  "truthy_val v = (case v of Str s \<Rightarrow> truthy s | Num n \<Rightarrow> n \<noteq> NaN \<and> n \<noteq> Fin 0)"

text \<open>One entry of \<open>modelData.model_specs\<close>.\<close>

record variant =
  model_format :: string
  model_size_in_billions :: jsnum
  quantizations :: "string list"

text \<open>
  The \<open>modelData\<close> prop. Only the fields the selection and launch logic read are kept;
  \<open>model_description\<close>, \<open>context_length\<close> and \<open>model_ability\<close> are read by the
  markup alone. The render dereferences \<open>modelData.model_name\<close> unconditionally, so the
  prop is an object whenever the component is on screen and the tests \<open>if (modelData)\<close>
  of the source are true.
\<close>

record modelData =
  model_name :: string
  is_builtin :: bool
  model_specs :: "variant list"

text \<open>
  The component's \<open>useState\<close> cells. The three selections start as the empty string.
  A \<open>Select\<close> hands to its \<open>onChange\<close> the \<open>value\<close> of the chosen \<open>MenuItem\<close>: a
  format or a quantization of the catalog, which is a string, or a size of the catalog
  (lines 345-346), which is a number. So \<open>modelSize\<close> holds the empty string until a
  size is chosen and a number afterwards.
\<close>

record card =
  hover :: bool
  selected :: bool
  modelFormat :: string
  modelSize :: jsval
  quantization :: string
  formatOptions :: "string list"
  sizeOptions :: "jsnum list"
  quantizationOptions :: "string list"

section \<open>Option derivation\<close>

text \<open>
  \<open>[...new Set(xs)]\<close>: the constructor adds the elements of \<open>xs\<close> one by one, an
  element already present is not added again, and the spread lists the elements in
  insertion order.
\<close>

definition set_add :: "'a list \<Rightarrow> 'a \<Rightarrow> 'a list" where
  "set_add s x = (if x \<in> set s then s else s @ [x])"

definition new_Set :: "'a list \<Rightarrow> 'a list" where
  "new_Set xs = foldl set_add [] xs"

text \<open>The three \<open>useEffect\<close> bodies (lines 33-73). \<open>parseFloat\<close> is the JavaScript
  built-in, taken as the parameter \<open>pf\<close>.\<close>

definition effect_formatOptions :: "modelData \<Rightarrow> card \<Rightarrow> card" where
  "effect_formatOptions md st =
     (let modelFamily = model_specs md;
          formats = new_Set (map model_format modelFamily)
      in st\<lparr>formatOptions := formats\<rparr>)"

definition effect_sizeOptions :: "modelData \<Rightarrow> card \<Rightarrow> card" where
  "effect_sizeOptions md st =
     (if truthy (modelFormat st) then
        (let modelFamily = model_specs md;
             sizes = new_Set (map model_size_in_billions
                       (filter (\<lambda>spec. model_format spec = modelFormat st) modelFamily))
         in st\<lparr>sizeOptions := sizes\<rparr>)
      else st)"

definition effect_quantizationOptions :: "(jsval \<Rightarrow> jsnum) \<Rightarrow> modelData \<Rightarrow> card \<Rightarrow> card" where
  "effect_quantizationOptions pf md st =
     (if truthy (modelFormat st) \<and> truthy_val (modelSize st) then
        (let modelFamily = model_specs md;
             quants = new_Set (concat (map quantizations
                        (filter (\<lambda>spec. model_format spec = modelFormat st \<and>
                                   strict_eq (model_size_in_billions spec) (pf (modelSize st)))
                                modelFamily)))
         in st\<lparr>quantizationOptions := quants\<rparr>)
      else st)"

text \<open>
  After a render React runs an effect when one of its dependencies differs from the
  previous render; on the first render it runs all of them. \<open>modelData\<close> is a prop that
  the card never writes, so here only the selections can differ.
\<close>

definition run_effects :: "(jsval \<Rightarrow> jsnum) \<Rightarrow> modelData \<Rightarrow> card \<Rightarrow> card \<Rightarrow> card" where
  "run_effects pf md prev st =
     (let st1 = (if modelFormat prev \<noteq> modelFormat st then effect_sizeOptions md st else st);
          st2 = (if modelFormat prev \<noteq> modelFormat st \<or> modelSize prev \<noteq> modelSize st
                 then effect_quantizationOptions pf md st1 else st1)
      in st2)"

definition initial_card :: card where
  "initial_card = \<lparr>hover = False, selected = False, modelFormat = [], modelSize = Str [],
     quantization = [], formatOptions = [], sizeOptions = [], quantizationOptions = []\<rparr>"

definition mount :: "(jsval \<Rightarrow> jsnum) \<Rightarrow> modelData \<Rightarrow> card" where
  "mount pf md =
     effect_quantizationOptions pf md
       (effect_sizeOptions md (effect_formatOptions md initial_card))"

section \<open>Card interaction\<close>

text \<open>
  The user's actions on the card. The three \<open>Select\<close> controls call their setter with
  the chosen value. A click on one of the two buttons runs the button's handler and then
  bubbles to the enclosing box, whose handler \<open>if (!selected) setSelected(true)\<close> reads
  \<open>selected\<close> as it was rendered; the updates are applied in that order. The handler of
  the launch button, \<open>launchModel\<close>, writes no cell of the card: it is modelled below,
  on the shared context, and \<open>ClickLaunch\<close> is what a click that gets through leaves on
  the card.
\<close>

datatype ui_event =
    MouseEnter
  | MouseLeave
  | CardClick
  | SelectFormat string
  | SelectSize jsnum
  | SelectQuantization string
  | ClickLaunch
  | ClickUndo

definition box_onClick :: "card \<Rightarrow> card \<Rightarrow> card" where
  "box_onClick rendered st = (if \<not> selected rendered then st\<lparr>selected := True\<rparr> else st)"

fun handler :: "ui_event \<Rightarrow> card \<Rightarrow> card" where
  "handler MouseEnter st = st\<lparr>hover := True\<rparr>"
| "handler MouseLeave st = st\<lparr>hover := False\<rparr>"
| "handler CardClick st = box_onClick st st"
| "handler (SelectFormat v) st = st\<lparr>modelFormat := v\<rparr>"
| "handler (SelectSize v) st = st\<lparr>modelSize := Num v\<rparr>"
| "handler (SelectQuantization v) st = st\<lparr>quantization := v\<rparr>"
| "handler ClickLaunch st = box_onClick st st"
| "handler ClickUndo st = box_onClick st (st\<lparr>selected := False\<rparr>)"

definition ui_step :: "(jsval \<Rightarrow> jsnum) \<Rightarrow> modelData \<Rightarrow> card \<Rightarrow> ui_event \<Rightarrow> card" where
  "ui_step pf md st ev = run_effects pf md st (handler ev st)"

definition run :: "(jsval \<Rightarrow> jsnum) \<Rightarrow> modelData \<Rightarrow> ui_event list \<Rightarrow> card" where
  "run pf md evs = foldl (ui_step pf md) (mount pf md) evs"

section \<open>Launch sequencer\<close>

text \<open>
  The shared \<open>ApiContext\<close> with the two flags, and the trace of what the card does to the
  outside: the requests it issues, the settlement of each request when the network
  delivers it, and the calls of \<open>response.json\<close>, \<open>window.open\<close>, \<open>console.error\<close> and
  \<open>setIsCallingApi\<close>. The body of a request carries the cells as they are: the size is
  the number chosen.
\<close>

record payload =
  model_uid :: string
  req_model_name :: string
  req_model_format :: string
  req_model_size_in_billions :: jsval
  req_quantization :: string

record request =
  http_method :: string
  headers :: "(string \<times> string) list"
  body :: payload

record response =
  status :: nat
  body_is_json :: bool

datatype 'a promise = Fulfilled 'a | Rejected string

datatype event =
    SetIsCallingApi bool
  | Fetch string request
  | Settled string "response promise"
  | ResponseJson response
  | WindowOpen string string string
  | ConsoleError string string

record world =
  isCallingApi :: bool
  isUpdatingModel :: bool
  trace :: "event list"

text \<open>
  Code that runs without interruption. \<open>Request u rq k c\<close> is a call of \<open>fetch\<close>: it
  issues the request, registers \<open>k\<close> as what runs when the request settles, and goes on
  with \<open>c\<close> at once, while the request is pending.
\<close>

datatype code =
    Stop
  | Act event code
  | Request string request "response promise \<Rightarrow> code" code

text \<open>The context together with the requests that are pending, oldest first.\<close>

record machine =
  ctx :: world
  pending :: "(string \<times> request \<times> (response promise \<Rightarrow> code)) list"

definition perform :: "event \<Rightarrow> world \<Rightarrow> world" where
  "perform e w =
     (case e of
        SetIsCallingApi b \<Rightarrow> w\<lparr>isCallingApi := b, trace := trace w @ [e]\<rparr>
      | _ \<Rightarrow> w\<lparr>trace := trace w @ [e]\<rparr>)"

primrec exec :: "code \<Rightarrow> machine \<Rightarrow> machine" where
  "exec Stop m = m"
| "exec (Act e c) m = exec c (m\<lparr>ctx := perform e (ctx m)\<rparr>)"
| "exec (Request u rq k c) m =
     exec c (m\<lparr>ctx := perform (Fetch u rq) (ctx m), pending := pending m @ [(u, rq, k)]\<rparr>)"

text \<open>
  The network settles the pending request number \<open>i\<close> with \<open>out\<close>: the request leaves
  the pending list and its reaction runs. Nothing happens when there is no such request.
\<close>

definition deliver :: "nat \<Rightarrow> response promise \<Rightarrow> machine \<Rightarrow> machine" where
  "deliver i out m =
     (if i < length (pending m) then
        (case pending m ! i of
           (u, rq, k) \<Rightarrow>
             exec (k out)
               (m\<lparr>ctx := perform (Settled u out) (ctx m),
                   pending := take i (pending m) @ drop (Suc i) (pending m)\<rparr>))
      else m)"

text \<open>A schedule is what the network does, in order: which pending request it settles
  and how.\<close>

definition run_schedule :: "machine \<Rightarrow> (nat \<times> response promise) list \<Rightarrow> machine" where
  "run_schedule m sched = foldl (\<lambda>m (i, out). deliver i out m) m sched"

text \<open>
  A network that answers each request by its address and content; \<open>settle net n\<close> lets
  it settle the oldest pending request, up to \<open>n\<close> times.
\<close>

type_synonym network = "string \<Rightarrow> request \<Rightarrow> response promise"

fun settle :: "network \<Rightarrow> nat \<Rightarrow> machine \<Rightarrow> machine" where
  "settle net 0 m = m"
| "settle net (Suc n) m =
     (case pending m of
        [] \<Rightarrow> m
      | (u, rq, k) # ps \<Rightarrow> settle net n (deliver 0 (net u rq) m))"

text \<open>
  A promise, as the code that runs once told what to do with its outcome.
  \<open>fetch\<close> issues the request and hands the outcome on when the request settles.
  \<open>p.then(f)\<close> runs \<open>f\<close> on the value of a fulfilled \<open>p\<close> and passes a rejection on;
  \<open>p.catch(g)\<close> runs \<open>g\<close> on the reason of a rejected \<open>p\<close>. A handler is a function
  into promises: one that returns the promise of a \<open>fetch\<close> makes the chain wait for
  it, one that returns nothing fulfils at once.
\<close>

type_synonym 'a promiseK = "('a promise \<Rightarrow> code) \<Rightarrow> code"

definition fetch :: "string \<Rightarrow> request \<Rightarrow> response promiseK" where
  "fetch u rq = (\<lambda>k. Request u rq k Stop)"

definition promise_then :: "'a promiseK \<Rightarrow> ('a \<Rightarrow> 'b promiseK) \<Rightarrow> 'b promiseK" where
  "promise_then p f =
     (\<lambda>k. p (\<lambda>out. case out of Fulfilled v \<Rightarrow> f v k | Rejected e \<Rightarrow> k (Rejected e)))"

definition promise_catch :: "'a promiseK \<Rightarrow> (string \<Rightarrow> 'a promiseK) \<Rightarrow> 'a promiseK" where
  "promise_catch p g =
     (\<lambda>k. p (\<lambda>out. case out of Fulfilled v \<Rightarrow> k (Fulfilled v) | Rejected e \<Rightarrow> g e k))"

text \<open>
  \<open>launchModel\<close> (lines 75-123), called in the context \<open>w\<close> whose flags it reads.
  \<open>uuid\<close> is the value of the one call \<open>uuidv1()\<close>. The two handlers
  \<open>(response) => { response.json(); }\<close> have a block body with no \<open>return\<close>: they
  call \<open>response.json()\<close>, drop the promise it returns and fulfil with \<open>undefined\<close>.
  The promise of the whole chain is dropped as well.
\<close>

definition modelDataWithID :: "modelData \<Rightarrow> card \<Rightarrow> string \<Rightarrow> payload" where
  "modelDataWithID md st uuid =
     \<lparr>model_uid = uuid,
      req_model_name = model_name md,
      req_model_format = modelFormat st,
      req_model_size_in_billions = modelSize st,
      req_quantization = quantization st\<rparr>"

text \<open>The options object that both \<open>fetch\<close> calls pass, written out twice in the source.\<close>

definition post_json :: "payload \<Rightarrow> request" where
  "post_json b =
     \<lparr>http_method = ''POST'', headers = [(''Content-Type'', ''application/json'')], body = b\<rparr>"

definition launchModel :: "string \<Rightarrow> modelData \<Rightarrow> card \<Rightarrow> string \<Rightarrow> world \<Rightarrow> code" where
  "launchModel url md st uuid w =
     (if isCallingApi w \<or> isUpdatingModel w then Stop
      else
        Act (SetIsCallingApi True)
          (let b = modelDataWithID md st uuid
           in (promise_catch
                (promise_then
                  (promise_then
                    (promise_then
                      (promise_then
                        (fetch (url @ ''/v1/models'') (post_json b))
                        (\<lambda>response k. Act (ResponseJson response) (k (Fulfilled ()))))
                      (\<lambda>_. fetch (url @ ''/v1/ui/'' @ uuid) (post_json b)))
                    (\<lambda>response k. Act (ResponseJson response) (k (Fulfilled ()))))
                  (\<lambda>_ k. Act (WindowOpen (url @ ''/'' @ uuid) ''_blank'' ''noreferrer'')
                           (Act (SetIsCallingApi False) (k (Fulfilled ())))))
                (\<lambda>error k. Act (ConsoleError ''Error:'' error)
                             (Act (SetIsCallingApi False) (k (Fulfilled ())))))
              (\<lambda>_. Stop)))"

text \<open>A call of \<open>launchModel\<close>: its code runs in the context, with nothing of its own
  pending yet.\<close>

definition launch :: "string \<Rightarrow> modelData \<Rightarrow> card \<Rightarrow> string \<Rightarrow> world \<Rightarrow> machine" where
  "launch url md st uuid w = exec (launchModel url md st uuid w) \<lparr>ctx = w, pending = []\<rparr>"

text \<open>
  The launch button (lines 376-391): a disabled button delivers no click, so its
  \<open>onClick\<close> runs only when the \<open>disabled\<close> expression is false. The conjunct
  \<open>modelData\<close> of that expression is true, as above.
\<close>

definition launch_disabled :: "world \<Rightarrow> modelData \<Rightarrow> card \<Rightarrow> bool" where
  "launch_disabled w md st =
     (isCallingApi w \<or> isUpdatingModel w \<or>
      \<not> (truthy (modelFormat st) \<and> truthy_val (modelSize st) \<and>
         (truthy (quantization st) \<or> (\<not> is_builtin md \<and> modelFormat st \<noteq> ''pytorch''))))"

definition click_launch :: "string \<Rightarrow> modelData \<Rightarrow> card \<Rightarrow> string \<Rightarrow> world \<Rightarrow> machine" where
  "click_launch url md st uuid w =
     (if launch_disabled w md st then \<lparr>ctx = w, pending = []\<rparr>
      else launch url md st uuid w)"

text \<open>What has been appended to the trace of \<open>w\<close> in \<open>w'\<close>.\<close>

definition new_events :: "world \<Rightarrow> world \<Rightarrow> event list" where
  "new_events w w' = drop (length (trace w)) (trace w')"

definition is_fetch :: "event \<Rightarrow> bool" where
  "is_fetch e = (case e of Fetch u rq \<Rightarrow> True | _ \<Rightarrow> False)"

definition is_settled :: "event \<Rightarrow> bool" where
  "is_settled e = (case e of Settled u p \<Rightarrow> True | _ \<Rightarrow> False)"

text \<open>The number of requests issued and not yet settled at the end of a trace.\<close>

definition in_flight :: "event list \<Rightarrow> int" where
  "in_flight tr = int (length (filter is_fetch tr)) - int (length (filter is_settled tr))"

section \<open>Vocabulary of the properties\<close>

text \<open>The position at which \<open>x\<close> first appears in \<open>xs\<close> (\<open>length xs\<close> when it does not).\<close>

definition first_pos :: "'a list \<Rightarrow> 'a \<Rightarrow> nat" where
  "first_pos xs x = length (takeWhile (\<lambda>y. y \<noteq> x) xs)"

text \<open>
  Catalogs and runs of the card used to instantiate the theorems below. The table
  \<open>parseFloat_sample\<close> gives the value of \<open>parseFloat\<close> on the three numbers that are
  chosen in them (\<open>parseFloat\<close> of a number parses the number's own rendering) and is
  used on no other value.
\<close>

definition parseFloat_sample :: "jsval \<Rightarrow> jsnum" where
  "parseFloat_sample v =
     (if v = Num (Fin 7) then Fin 7 else if v = Num (Fin 13) then Fin 13
      else if v = Num (Fin 0) then Fin 0 else NaN)"

definition llama :: modelData where
  "llama = \<lparr>model_name = ''llama-2-chat'', is_builtin = True, model_specs =
     [\<lparr>model_format = ''pytorch'', model_size_in_billions = Fin 7,
        quantizations = [''int4'', ''int8'']\<rparr>,
      \<lparr>model_format = ''ggmlv3'', model_size_in_billions = Fin 13,
        quantizations = [''q4_0'']\<rparr>,
      \<lparr>model_format = ''pytorch'', model_size_in_billions = Fin 13,
        quantizations = [''int4'']\<rparr>]\<rparr>"

definition chosen :: card where
  "chosen = run parseFloat_sample llama
     [MouseEnter, CardClick, SelectFormat ''pytorch'', SelectSize (Fin 7),
      SelectQuantization ''int4'']"



definition idle :: world where
  "idle = \<lparr>isCallingApi = False, isUpdatingModel = False, trace = []\<rparr>"

definition answers :: "response \<Rightarrow> response \<Rightarrow> network" where
  "answers r1 r2 u rq =
     (if u = ''http://localhost:9997/v1/models'' then Fulfilled r1 else Fulfilled r2)"

text \<open>
  The option lists are current: each list whose effect has a true guard holds what that
  effect computes from the present selections.
\<close>

definition options_current :: "(jsval \<Rightarrow> jsnum) \<Rightarrow> modelData \<Rightarrow> card \<Rightarrow> bool" where
  "options_current pf md st =
    (formatOptions st = new_Set (map model_format (model_specs md)) \<and>
     (modelFormat st \<noteq> [] \<longrightarrow>
        sizeOptions st = new_Set (map model_size_in_billions
           (filter (\<lambda>spec. model_format spec = modelFormat st) (model_specs md)))) \<and>
     (modelFormat st \<noteq> [] \<and> truthy_val (modelSize st) \<longrightarrow>
        quantizationOptions st = new_Set (concat (map quantizations
           (filter (\<lambda>spec. model_format spec = modelFormat st \<and>
               strict_eq (model_size_in_billions spec) (pf (modelSize st))) (model_specs md))))))"

text \<open>
  A trace is well sequenced when every request to \<open>u2\<close> in it comes after a request to
  \<open>u1\<close> and the fulfilment of that request, and no prefix of it has more than one
  request in flight.
\<close>

definition well_sequenced :: "string \<Rightarrow> string \<Rightarrow> event list \<Rightarrow> bool" where
  "well_sequenced u1 u2 evs =
    ((\<forall>j rq. j < length evs \<and> evs ! j = Fetch u2 rq \<longrightarrow>
        (\<exists>i k r. i < k \<and> k < j \<and> evs ! i = Fetch u1 rq \<and>
                  evs ! k = Settled u1 (Fulfilled r))) \<and>
     (\<forall>n. 0 \<le> in_flight (take n evs) \<and> in_flight (take n evs) \<le> 1))"

section \<open>The Set model\<close>

lemma new_Set_snoc: "new_Set (xs @ [x]) = set_add (new_Set xs) x"
  by (simp add: new_Set_def)

lemma set_new_Set: "set (new_Set xs) = set xs"
proof (induction xs rule: rev_induct)
  case Nil
  show ?case by (simp add: new_Set_def)
next
  case (snoc x xs)
  then show ?case by (auto simp add: new_Set_snoc set_add_def)
qed

lemma distinct_new_Set: "distinct (new_Set xs)"
proof (induction xs rule: rev_induct)
  case Nil
  show ?case by (simp add: new_Set_def)
next
  case (snoc x xs)
  then show ?case by (simp add: new_Set_snoc set_add_def)
qed

lemma first_pos_less: "a \<in> set xs \<Longrightarrow> first_pos xs a < length xs"
  unfolding first_pos_def by (induction xs) auto

lemma first_pos_snoc_old: "a \<in> set xs \<Longrightarrow> first_pos (xs @ [x]) a = first_pos xs a"
  unfolding first_pos_def by (induction xs) auto

lemma first_pos_snoc_new: "x \<notin> set xs \<Longrightarrow> first_pos (xs @ [x]) x = length xs"
  unfolding first_pos_def by (induction xs) auto

lemma new_Set_first_seen:
  "sorted_wrt (\<lambda>a b. first_pos xs a < first_pos xs b) (new_Set xs)"
proof (induction xs rule: rev_induct)
  case Nil
  show ?case by (simp add: new_Set_def)
next
  case (snoc x xs)
  have old: "sorted_wrt (\<lambda>a b. first_pos (xs @ [x]) a < first_pos (xs @ [x]) b) (new_Set xs)"
    using snoc
    by (rule sorted_wrt_mono_rel [rotated]) (simp add: set_new_Set first_pos_snoc_old)
  show ?case
  proof (cases "x \<in> set xs")
    case True
    then show ?thesis using old by (simp add: new_Set_snoc set_add_def set_new_Set)
  next
    case False
    then show ?thesis using old
      by (simp add: new_Set_snoc set_add_def set_new_Set sorted_wrt_append
            first_pos_snoc_old first_pos_snoc_new first_pos_less)
  qed
qed

section \<open>The option lists stay current\<close>

lemmas effect_defs = effect_formatOptions_def effect_sizeOptions_def
  effect_quantizationOptions_def run_effects_def truthy_def Let_def box_onClick_def

lemma options_current_mount: "options_current pf md (mount pf md)"
  by (simp add: options_current_def mount_def initial_card_def effect_defs)

lemma run_effects_same:
  "modelFormat st' = modelFormat st \<Longrightarrow> modelSize st' = modelSize st \<Longrightarrow>
   run_effects pf md st st' = st'"
  by (simp add: run_effects_def)

lemma options_current_frame:
  "options_current pf md st \<Longrightarrow>
   modelFormat st' = modelFormat st \<Longrightarrow> modelSize st' = modelSize st \<Longrightarrow>
   formatOptions st' = formatOptions st \<Longrightarrow> sizeOptions st' = sizeOptions st \<Longrightarrow>
   quantizationOptions st' = quantizationOptions st \<Longrightarrow>
   options_current pf md st'"
  by (simp add: options_current_def)

lemma options_current_format:
  assumes "options_current pf md st"
  shows "options_current pf md (ui_step pf md st (SelectFormat v))"
proof (cases "modelFormat st = v")
  case True
  then have "st\<lparr>modelFormat := v\<rparr> = st" by auto
  then show ?thesis using assms by (simp add: ui_step_def run_effects_same)
next
  case False
  then show ?thesis using assms
    by (simp add: ui_step_def options_current_def run_effects_def effect_sizeOptions_def
          effect_quantizationOptions_def truthy_def Let_def)
qed

lemma options_current_size:
  assumes "options_current pf md st"
  shows "options_current pf md (ui_step pf md st (SelectSize v))"
proof (cases "modelSize st = Num v")
  case True
  then have "st\<lparr>modelSize := Num v\<rparr> = st" by auto
  then show ?thesis using assms by (simp add: ui_step_def run_effects_same)
next
  case False
  then show ?thesis using assms
    by (simp add: ui_step_def options_current_def run_effects_def
          effect_quantizationOptions_def truthy_def Let_def)
qed

lemma options_current_step:
  "options_current pf md st \<Longrightarrow> options_current pf md (ui_step pf md st ev)"
proof (cases ev)
  case (SelectFormat v)
  assume "options_current pf md st"
  then show ?thesis unfolding SelectFormat by (rule options_current_format)
next
  case (SelectSize v)
  assume "options_current pf md st"
  then show ?thesis unfolding SelectSize by (rule options_current_size)
qed (simp_all add: ui_step_def run_effects_same box_onClick_def options_current_frame)

lemma options_current_foldl:
  "options_current pf md st \<Longrightarrow> options_current pf md (foldl (ui_step pf md) st evs)"
  by (induction evs arbitrary: st) (simp_all add: options_current_step)

lemma options_current_run: "options_current pf md (run pf md evs)"
  by (simp add: run_def options_current_foldl options_current_mount)

lemma chosen_eval:
  "chosen = \<lparr>hover = True, selected = True, modelFormat = ''pytorch'',
     modelSize = Num (Fin 7), quantization = ''int4'',
     formatOptions = [''pytorch'', ''ggmlv3''],
     sizeOptions = [Fin 7, Fin 13], quantizationOptions = [''int4'', ''int8'']\<rparr>"
  by (simp add: chosen_def run_def mount_def initial_card_def ui_step_def effect_defs
        truthy_val_def new_Set_def set_add_def llama_def parseFloat_sample_def strict_eq_def)


section \<open>The states of a launch run\<close>

lemmas launch_defs = launch_def launchModel_def promise_then_def promise_catch_def fetch_def
  perform_def deliver_def Let_def

lemma launch_refused:
  "isCallingApi w \<or> isUpdatingModel w \<Longrightarrow>
   launch url md st uuid w = \<lparr>ctx = w, pending = []\<rparr>"
  by (auto simp add: launch_def launchModel_def)

lemma deliver_none: "length (pending m) \<le> i \<Longrightarrow> deliver i out m = m"
  by (simp add: deliver_def)

lemma run_schedule_none: "pending m = [] \<Longrightarrow> run_schedule m sched = m"
  unfolding run_schedule_def
  by (induction sched) (simp_all add: deliver_none split: prod.splits)

lemma settle_none: "pending m = [] \<Longrightarrow> settle net n m = m"
  by (cases n) simp_all

lemma settle_head:
  "pending m = [(u, rq, k)] \<Longrightarrow> settle net (Suc n) m = settle net n (deliver 0 (net u rq) m)"
  by simp

text \<open>The states of a run whose guard lets it through, and their traces.\<close>

lemma launch_issued:
  assumes "\<not> isCallingApi w" and "\<not> isUpdatingModel w"
  shows "ctx (launch url md st uuid w) =
           w\<lparr>isCallingApi := True, trace := trace w @
             [SetIsCallingApi True,
              Fetch (url @ ''/v1/models'') (post_json (modelDataWithID md st uuid))]\<rparr>"
    and "\<exists>k. pending (launch url md st uuid w) =
           [(url @ ''/v1/models'', post_json (modelDataWithID md st uuid), k)]"
  using assms by (simp_all add: launch_defs)

lemma first_rejected:
  assumes "\<not> isCallingApi w" and "\<not> isUpdatingModel w"
  shows "deliver 0 (Rejected e) (launch url md st uuid w) =
     \<lparr>ctx = w\<lparr>isCallingApi := False, trace := trace w @
       [SetIsCallingApi True,
        Fetch (url @ ''/v1/models'') (post_json (modelDataWithID md st uuid)),
        Settled (url @ ''/v1/models'') (Rejected e),
        ConsoleError ''Error:'' e,
        SetIsCallingApi False]\<rparr>, pending = []\<rparr>"
  using assms by (simp add: launch_defs)

lemma first_fulfilled:
  assumes "\<not> isCallingApi w" and "\<not> isUpdatingModel w"
  shows "ctx (deliver 0 (Fulfilled r1) (launch url md st uuid w)) =
      w\<lparr>isCallingApi := True, trace := trace w @
       [SetIsCallingApi True,
        Fetch (url @ ''/v1/models'') (post_json (modelDataWithID md st uuid)),
        Settled (url @ ''/v1/models'') (Fulfilled r1), ResponseJson r1,
        Fetch (url @ ''/v1/ui/'' @ uuid) (post_json (modelDataWithID md st uuid))]\<rparr>"
    and "\<exists>k. pending (deliver 0 (Fulfilled r1) (launch url md st uuid w)) =
           [(url @ ''/v1/ui/'' @ uuid, post_json (modelDataWithID md st uuid), k)]"
  using assms by (simp_all add: launch_defs)

lemma second_rejected:
  assumes "\<not> isCallingApi w" and "\<not> isUpdatingModel w"
  shows "deliver 0 (Rejected e) (deliver 0 (Fulfilled r1) (launch url md st uuid w)) =
     \<lparr>ctx = w\<lparr>isCallingApi := False, trace := trace w @
       [SetIsCallingApi True,
        Fetch (url @ ''/v1/models'') (post_json (modelDataWithID md st uuid)),
        Settled (url @ ''/v1/models'') (Fulfilled r1), ResponseJson r1,
        Fetch (url @ ''/v1/ui/'' @ uuid) (post_json (modelDataWithID md st uuid)),
        Settled (url @ ''/v1/ui/'' @ uuid) (Rejected e),
        ConsoleError ''Error:'' e,
        SetIsCallingApi False]\<rparr>, pending = []\<rparr>"
  using assms by (simp add: launch_defs)

lemma second_fulfilled:
  assumes "\<not> isCallingApi w" and "\<not> isUpdatingModel w"
  shows "deliver 0 (Fulfilled r2) (deliver 0 (Fulfilled r1) (launch url md st uuid w)) =
     \<lparr>ctx = w\<lparr>isCallingApi := False, trace := trace w @
       [SetIsCallingApi True,
        Fetch (url @ ''/v1/models'') (post_json (modelDataWithID md st uuid)),
        Settled (url @ ''/v1/models'') (Fulfilled r1), ResponseJson r1,
        Fetch (url @ ''/v1/ui/'' @ uuid) (post_json (modelDataWithID md st uuid)),
        Settled (url @ ''/v1/ui/'' @ uuid) (Fulfilled r2), ResponseJson r2,
        WindowOpen (url @ ''/'' @ uuid) ''_blank'' ''noreferrer'',
        SetIsCallingApi False]\<rparr>, pending = []\<rparr>"
  using assms by (simp add: launch_defs)

text \<open>The run under a network that answers by address.\<close>

lemma launch_both_resolve:
  assumes "\<not> isCallingApi w" and "\<not> isUpdatingModel w"
    and "net (url @ ''/v1/models'') (post_json (modelDataWithID md st uuid)) = Fulfilled r1"
    and "net (url @ ''/v1/ui/'' @ uuid) (post_json (modelDataWithID md st uuid)) = Fulfilled r2"
    and "2 \<le> n"
  shows "settle net n (launch url md st uuid w) =
     \<lparr>ctx = w\<lparr>isCallingApi := False, trace := trace w @
       [SetIsCallingApi True,
        Fetch (url @ ''/v1/models'') (post_json (modelDataWithID md st uuid)),
        Settled (url @ ''/v1/models'') (Fulfilled r1), ResponseJson r1,
        Fetch (url @ ''/v1/ui/'' @ uuid) (post_json (modelDataWithID md st uuid)),
        Settled (url @ ''/v1/ui/'' @ uuid) (Fulfilled r2), ResponseJson r2,
        WindowOpen (url @ ''/'' @ uuid) ''_blank'' ''noreferrer'',
        SetIsCallingApi False]\<rparr>, pending = []\<rparr>"
proof -
  from assms(5) obtain n' where n: "n = Suc (Suc n')"
    by (metis Suc_le_D numeral_2_eq_2 Suc_le_mono)
  from launch_issued(2) [OF assms(1,2)] obtain k1 where
    p1: "pending (launch url md st uuid w) =
           [(url @ ''/v1/models'', post_json (modelDataWithID md st uuid), k1)]"
    by blast
  from first_fulfilled(2) [OF assms(1,2)] obtain k2 where
    p2: "pending (deliver 0 (Fulfilled r1) (launch url md st uuid w)) =
           [(url @ ''/v1/ui/'' @ uuid, post_json (modelDataWithID md st uuid), k2)]"
    by blast
  have "settle net n (launch url md st uuid w) =
          settle net (Suc n') (deliver 0 (Fulfilled r1) (launch url md st uuid w))"
    unfolding n using settle_head [OF p1] assms(3) by simp
  also have "\<dots> = settle net n'
          (deliver 0 (Fulfilled r2) (deliver 0 (Fulfilled r1) (launch url md st uuid w)))"
    using settle_head [OF p2] assms(4) by simp
  finally show ?thesis
    by (simp add: second_fulfilled [OF assms(1,2)] settle_none)
qed

lemma launch_first_rejects:
  assumes "\<not> isCallingApi w" and "\<not> isUpdatingModel w"
    and "net (url @ ''/v1/models'') (post_json (modelDataWithID md st uuid)) = Rejected e"
    and "1 \<le> n"
  shows "settle net n (launch url md st uuid w) =
     \<lparr>ctx = w\<lparr>isCallingApi := False, trace := trace w @
       [SetIsCallingApi True,
        Fetch (url @ ''/v1/models'') (post_json (modelDataWithID md st uuid)),
        Settled (url @ ''/v1/models'') (Rejected e),
        ConsoleError ''Error:'' e,
        SetIsCallingApi False]\<rparr>, pending = []\<rparr>"
proof -
  from assms(4) obtain n' where n: "n = Suc n'"
    by (metis Suc_le_D One_nat_def)
  from launch_issued(2) [OF assms(1,2)] obtain k1 where
    p1: "pending (launch url md st uuid w) =
           [(url @ ''/v1/models'', post_json (modelDataWithID md st uuid), k1)]"
    by blast
  have "settle net n (launch url md st uuid w) =
          settle net n' (deliver 0 (Rejected e) (launch url md st uuid w))"
    unfolding n using settle_head [OF p1] assms(3) by simp
  then show ?thesis
    by (simp add: first_rejected [OF assms(1,2)] settle_none)
qed

lemma launch_second_rejects:
  assumes "\<not> isCallingApi w" and "\<not> isUpdatingModel w"
    and "net (url @ ''/v1/models'') (post_json (modelDataWithID md st uuid)) = Fulfilled r1"
    and "net (url @ ''/v1/ui/'' @ uuid) (post_json (modelDataWithID md st uuid)) = Rejected e"
    and "2 \<le> n"
  shows "settle net n (launch url md st uuid w) =
     \<lparr>ctx = w\<lparr>isCallingApi := False, trace := trace w @
       [SetIsCallingApi True,
        Fetch (url @ ''/v1/models'') (post_json (modelDataWithID md st uuid)),
        Settled (url @ ''/v1/models'') (Fulfilled r1), ResponseJson r1,
        Fetch (url @ ''/v1/ui/'' @ uuid) (post_json (modelDataWithID md st uuid)),
        Settled (url @ ''/v1/ui/'' @ uuid) (Rejected e),
        ConsoleError ''Error:'' e,
        SetIsCallingApi False]\<rparr>, pending = []\<rparr>"
proof -
  from assms(5) obtain n' where n: "n = Suc (Suc n')"
    by (metis Suc_le_D numeral_2_eq_2 Suc_le_mono)
  from launch_issued(2) [OF assms(1,2)] obtain k1 where
    p1: "pending (launch url md st uuid w) =
           [(url @ ''/v1/models'', post_json (modelDataWithID md st uuid), k1)]"
    by blast
  from first_fulfilled(2) [OF assms(1,2)] obtain k2 where
    p2: "pending (deliver 0 (Fulfilled r1) (launch url md st uuid w)) =
           [(url @ ''/v1/ui/'' @ uuid, post_json (modelDataWithID md st uuid), k2)]"
    by blast
  have "settle net n (launch url md st uuid w) =
          settle net (Suc n') (deliver 0 (Fulfilled r1) (launch url md st uuid w))"
    unfolding n using settle_head [OF p1] assms(3) by simp
  also have "\<dots> = settle net n'
          (deliver 0 (Rejected e) (deliver 0 (Fulfilled r1) (launch url md st uuid w)))"
    using settle_head [OF p2] assms(4) by simp
  finally show ?thesis
    by (simp add: second_rejected [OF assms(1,2)] settle_none)
qed

text \<open>Whatever the network does, a run is in one of these states.\<close>

lemma run_schedule_snoc:
  "run_schedule m (sched @ [(i, out)]) = deliver i out (run_schedule m sched)"
  by (simp add: run_schedule_def)

lemma deliver_single:
  "length (pending m) = 1 \<Longrightarrow> deliver i out m = (if i = 0 then deliver 0 out m else m)"
  by (simp add: deliver_none)

lemma stage_step:
  assumes len1: "length (pending M) = 1"
    and len2: "\<And>r1. length (pending (deliver 0 (Fulfilled r1) M)) = 1"
    and p3: "\<And>e. pending (deliver 0 (Rejected e) M) = []"
    and p4: "\<And>r1 r2. pending (deliver 0 (Fulfilled r2) (deliver 0 (Fulfilled r1) M)) = []"
    and p5: "\<And>r1 e. pending (deliver 0 (Rejected e) (deliver 0 (Fulfilled r1) M)) = []"
    and m: "m = M \<or>
     (\<exists>r1. m = deliver 0 (Fulfilled r1) M) \<or>
     (\<exists>e. m = deliver 0 (Rejected e) M) \<or>
     (\<exists>r1 r2. m = deliver 0 (Fulfilled r2) (deliver 0 (Fulfilled r1) M)) \<or>
     (\<exists>r1 e. m = deliver 0 (Rejected e) (deliver 0 (Fulfilled r1) M))"
  shows "deliver i out m = M \<or>
     (\<exists>r1. deliver i out m = deliver 0 (Fulfilled r1) M) \<or>
     (\<exists>e. deliver i out m = deliver 0 (Rejected e) M) \<or>
     (\<exists>r1 r2. deliver i out m = deliver 0 (Fulfilled r2) (deliver 0 (Fulfilled r1) M)) \<or>
     (\<exists>r1 e. deliver i out m = deliver 0 (Rejected e) (deliver 0 (Fulfilled r1) M))"
proof -
  from m consider
      (a) "m = M"
    | (b) r1 where "m = deliver 0 (Fulfilled r1) M"
    | (c) "pending m = []"
    using p3 p4 p5 by metis
  then show ?thesis
  proof cases
    case a
    show ?thesis
    proof (cases "i = 0")
      case True
      show ?thesis unfolding a True by (cases out) blast+
    next
      case False
      then have "deliver i out m = m"
        unfolding a using len1 by (simp add: deliver_none)
      then show ?thesis using a by simp
    qed
  next
    case b
    show ?thesis
    proof (cases "i = 0")
      case True
      show ?thesis unfolding b True by (cases out) blast+
    next
      case False
      then have "deliver i out m = m"
        unfolding b using len2 [of r1] by (simp add: deliver_none)
      then show ?thesis using m by simp
    qed
  next
    case c
    then have "deliver i out m = m" by (simp add: deliver_none)
    then show ?thesis using m by simp
  qed
qed

lemma run_schedule_states:
  assumes "\<not> isCallingApi w" and "\<not> isUpdatingModel w"
  shows "run_schedule (launch url md st uuid w) sched = launch url md st uuid w \<or>
     (\<exists>r1. run_schedule (launch url md st uuid w) sched =
              deliver 0 (Fulfilled r1) (launch url md st uuid w)) \<or>
     (\<exists>e. run_schedule (launch url md st uuid w) sched =
              deliver 0 (Rejected e) (launch url md st uuid w)) \<or>
     (\<exists>r1 r2. run_schedule (launch url md st uuid w) sched =
              deliver 0 (Fulfilled r2) (deliver 0 (Fulfilled r1) (launch url md st uuid w))) \<or>
     (\<exists>r1 e. run_schedule (launch url md st uuid w) sched =
              deliver 0 (Rejected e) (deliver 0 (Fulfilled r1) (launch url md st uuid w)))"
proof (induction sched rule: rev_induct)
  case Nil
  show ?case by (simp add: run_schedule_def)
next
  case (snoc x sched)
  obtain i out where x: "x = (i, out)" by (cases x)
  define M where "M = launch url md st uuid w"
  have len1: "length (pending M) = 1"
    unfolding M_def
    using launch_issued(2) [OF assms, where url = url and md = md and st = st and uuid = uuid]
    by auto
  have len2: "length (pending (deliver 0 (Fulfilled r1) M)) = 1" for r1
    unfolding M_def
    using first_fulfilled(2) [OF assms, where ?r1.0 = r1 and url = url and md = md
        and st = st and uuid = uuid]
    by auto
  have p3: "pending (deliver 0 (Rejected e) M) = []" for e
    unfolding M_def by (simp add: first_rejected [OF assms])
  have p4: "pending (deliver 0 (Fulfilled r2) (deliver 0 (Fulfilled r1) M)) = []" for r1 r2
    unfolding M_def by (simp add: second_fulfilled [OF assms])
  have p5: "pending (deliver 0 (Rejected e) (deliver 0 (Fulfilled r1) M)) = []" for r1 e
    unfolding M_def by (simp add: second_rejected [OF assms])
  show ?case
    unfolding x run_schedule_snoc
    using stage_step [OF len1 len2 p3 p4 p5 snoc [folded M_def], of i out]
    unfolding M_def .
qed

lemma url_distinct: "url @ ''/v1/models'' \<noteq> url @ ''/v1/ui/'' @ uuid"
  by simp

lemma in_flight_simps:
  "in_flight [] = 0"
  "in_flight (Fetch u rq # tr) = in_flight tr + 1"
  "in_flight (Settled u p # tr) = in_flight tr - 1"
  "in_flight (SetIsCallingApi b # tr) = in_flight tr"
  "in_flight (ResponseJson r # tr) = in_flight tr"
  "in_flight (WindowOpen a1 a2 a3 # tr) = in_flight tr"
  "in_flight (ConsoleError m e # tr) = in_flight tr"
  by (simp_all add: in_flight_def is_fetch_def is_settled_def)

lemma seq_empty: "well_sequenced u1 u2 []"
  by (simp add: well_sequenced_def in_flight_simps)

lemma seq_issued:
  assumes "u1 \<noteq> u2"
  shows "well_sequenced u1 u2 [SetIsCallingApi True, Fetch u1 rq]"
    (is "well_sequenced u1 u2 ?evs")
  unfolding well_sequenced_def
proof (intro conjI allI impI)
  fix j rq'
  assume "j < length ?evs \<and> ?evs ! j = Fetch u2 rq'"
  with assms have False by (auto simp add: nth_Cons' split: if_splits)
  then show "\<exists>i k r. i < k \<and> k < j \<and> ?evs ! i = Fetch u1 rq' \<and>
               ?evs ! k = Settled u1 (Fulfilled r)" ..
qed (simp_all add: take_Cons' in_flight_simps)

lemma seq_first_rejected:
  assumes "u1 \<noteq> u2"
  shows "well_sequenced u1 u2
     [SetIsCallingApi True, Fetch u1 rq, Settled u1 (Rejected e), ConsoleError m e,
      SetIsCallingApi False]"
    (is "well_sequenced u1 u2 ?evs")
  unfolding well_sequenced_def
proof (intro conjI allI impI)
  fix j rq'
  assume "j < length ?evs \<and> ?evs ! j = Fetch u2 rq'"
  with assms have False by (auto simp add: nth_Cons' split: if_splits)
  then show "\<exists>i k r. i < k \<and> k < j \<and> ?evs ! i = Fetch u1 rq' \<and>
               ?evs ! k = Settled u1 (Fulfilled r)" ..
qed (simp_all add: take_Cons' in_flight_simps)

lemma seq_first_fulfilled:
  assumes "u1 \<noteq> u2"
  shows "well_sequenced u1 u2
     [SetIsCallingApi True, Fetch u1 rq, Settled u1 (Fulfilled r1), ResponseJson r1,
      Fetch u2 rq]"
    (is "well_sequenced u1 u2 ?evs")
  unfolding well_sequenced_def
proof (intro conjI allI impI)
  fix j rq'
  assume "j < length ?evs \<and> ?evs ! j = Fetch u2 rq'"
  with assms have j: "j = 4 \<and> rq' = rq" by (auto simp add: nth_Cons' split: if_splits)
  have "(1::nat) < 2 \<and> 2 < j \<and> ?evs ! 1 = Fetch u1 rq' \<and> ?evs ! 2 = Settled u1 (Fulfilled r1)"
    using j by simp
  then show "\<exists>i k r. i < k \<and> k < j \<and> ?evs ! i = Fetch u1 rq' \<and>
               ?evs ! k = Settled u1 (Fulfilled r)"
    by blast
qed (simp_all add: take_Cons' in_flight_simps)

lemma seq_second_rejected:
  assumes "u1 \<noteq> u2"
  shows "well_sequenced u1 u2
     [SetIsCallingApi True, Fetch u1 rq, Settled u1 (Fulfilled r1), ResponseJson r1,
      Fetch u2 rq, Settled u2 (Rejected e), ConsoleError m e, SetIsCallingApi False]"
    (is "well_sequenced u1 u2 ?evs")
  unfolding well_sequenced_def
proof (intro conjI allI impI)
  fix j rq'
  assume "j < length ?evs \<and> ?evs ! j = Fetch u2 rq'"
  with assms have j: "j = 4 \<and> rq' = rq" by (auto simp add: nth_Cons' split: if_splits)
  have "(1::nat) < 2 \<and> 2 < j \<and> ?evs ! 1 = Fetch u1 rq' \<and> ?evs ! 2 = Settled u1 (Fulfilled r1)"
    using j by simp
  then show "\<exists>i k r. i < k \<and> k < j \<and> ?evs ! i = Fetch u1 rq' \<and>
               ?evs ! k = Settled u1 (Fulfilled r)"
    by blast
qed (simp_all add: take_Cons' in_flight_simps)

lemma seq_second_fulfilled:
  assumes "u1 \<noteq> u2"
  shows "well_sequenced u1 u2
     [SetIsCallingApi True, Fetch u1 rq, Settled u1 (Fulfilled r1), ResponseJson r1,
      Fetch u2 rq, Settled u2 (Fulfilled r2), ResponseJson r2, WindowOpen a1 a2 a3,
      SetIsCallingApi False]"
    (is "well_sequenced u1 u2 ?evs")
  unfolding well_sequenced_def
proof (intro conjI allI impI)
  fix j rq'
  assume "j < length ?evs \<and> ?evs ! j = Fetch u2 rq'"
  with assms have j: "j = 4 \<and> rq' = rq" by (auto simp add: nth_Cons' split: if_splits)
  have "(1::nat) < 2 \<and> 2 < j \<and> ?evs ! 1 = Fetch u1 rq' \<and> ?evs ! 2 = Settled u1 (Fulfilled r1)"
    using j by simp
  then show "\<exists>i k r. i < k \<and> k < j \<and> ?evs ! i = Fetch u1 rq' \<and>
               ?evs ! k = Settled u1 (Fulfilled r)"
    by blast
qed (simp_all add: take_Cons' in_flight_simps)

lemma launch_well_sequenced:
  "well_sequenced (url @ ''/v1/models'') (url @ ''/v1/ui/'' @ uuid)
     (new_events w (ctx (run_schedule (launch url md st uuid w) sched)))"
proof (cases "isCallingApi w \<or> isUpdatingModel w")
  case True
  then show ?thesis
    by (simp add: launch_refused run_schedule_none new_events_def seq_empty)
next
  case False
  then have idle: "\<not> isCallingApi w" "\<not> isUpdatingModel w" by simp_all
  from run_schedule_states [OF idle, of url md st uuid sched] consider
      (a) "run_schedule (launch url md st uuid w) sched = launch url md st uuid w"
    | (b) r1 where "run_schedule (launch url md st uuid w) sched =
              deliver 0 (Fulfilled r1) (launch url md st uuid w)"
    | (c) e where "run_schedule (launch url md st uuid w) sched =
              deliver 0 (Rejected e) (launch url md st uuid w)"
    | (d) r1 r2 where "run_schedule (launch url md st uuid w) sched =
              deliver 0 (Fulfilled r2) (deliver 0 (Fulfilled r1) (launch url md st uuid w))"
    | (e) r1 e where "run_schedule (launch url md st uuid w) sched =
              deliver 0 (Rejected e) (deliver 0 (Fulfilled r1) (launch url md st uuid w))"
    by blast
  then show ?thesis
  proof cases
    case a
    show ?thesis unfolding a
      by (simp add: launch_issued(1) [OF idle] new_events_def seq_issued)
  next
    case b
    show ?thesis unfolding b
      by (simp add: first_fulfilled(1) [OF idle] new_events_def seq_first_fulfilled)
  next
    case c
    show ?thesis unfolding c
      by (simp add: first_rejected [OF idle] new_events_def seq_first_rejected)
  next
    case d
    show ?thesis unfolding d
      by (simp add: second_fulfilled [OF idle] new_events_def seq_second_fulfilled)
  next
    case e
    show ?thesis unfolding e
      by (simp add: second_rejected [OF idle] new_events_def seq_second_rejected)
  qed
qed

text \<open>Two calls of \<open>fetch\<close> one after the other, with no chaining, have both requests
  in flight.\<close>

lemma unchained_requests_overlap:
  "in_flight (trace (ctx (exec (Request u1 rq1 k1 (Request u2 rq2 k2 Stop))
      \<lparr>ctx = idle, pending = []\<rparr>))) = 2"
  by (simp add: perform_def idle_def in_flight_simps)

section \<open>Launch guards\<close>

text \<open>
  \<open>launchModel\<close> itself tests the two flags and nothing else: called directly on the
  card as mounted, with nothing chosen, it issues the first request. The test of the
  selection is the \<open>disabled\<close> expression of the launch button, which is also true
  when the size chosen is the number \<open>0\<close>.
\<close>

lemma launchModel_reads_no_selection:
  "Fetch (url @ ''/v1/models'') (post_json (modelDataWithID md initial_card uuid))
     \<in> set (new_events idle (ctx (launch url md initial_card uuid idle)))"
  by (simp add: launch_defs idle_def new_events_def)

lemma launch_disabled_at_size_zero:
  "modelSize st = Num (Fin 0) \<Longrightarrow> launch_disabled w md st"
  by (simp add: launch_disabled_def truthy_val_def)

text \<open>
  C1. Whenever the selection is incomplete (no format, or no size, or no quantization
  while the model is built-in or the format is \<open>pytorch\<close>), a click on the launch control
  leaves the shared context as it was, appends nothing to the trace and leaves no
  request pending, whatever the network does afterwards: no request is issued. The
  control is disabled in that state, so \<open>launchModel\<close> is not entered.
\<close>

theorem launch_guard_incomplete_selection:
  assumes "modelFormat st = [] \<or> modelSize st = Str [] \<or>
           (quantization st = [] \<and> (is_builtin md \<or> modelFormat st = ''pytorch''))"
  shows "click_launch url md st uuid w = \<lparr>ctx = w, pending = []\<rparr> \<and>
         new_events w (ctx (click_launch url md st uuid w)) = [] \<and>
         run_schedule (click_launch url md st uuid w) sched = \<lparr>ctx = w, pending = []\<rparr>"
proof -
  have "launch_disabled w md st"
    using assms by (auto simp add: launch_disabled_def truthy_def truthy_val_def)
  then have "click_launch url md st uuid w = \<lparr>ctx = w, pending = []\<rparr>"
    by (simp add: click_launch_def)
  then show ?thesis
    by (simp add: new_events_def run_schedule_none)
qed

theorem launch_guard_incomplete_selection_witness:
  "quantization (chosen\<lparr>quantization := []\<rparr>) = [] \<and> is_builtin llama \<and>
   click_launch ''http://localhost:9997'' llama (chosen\<lparr>quantization := []\<rparr>) ''u1'' idle
     = \<lparr>ctx = idle, pending = []\<rparr>"
proof -
  have h: "modelFormat (chosen\<lparr>quantization := []\<rparr>) = [] \<or>
           modelSize (chosen\<lparr>quantization := []\<rparr>) = Str [] \<or>
           (quantization (chosen\<lparr>quantization := []\<rparr>) = [] \<and>
            (is_builtin llama \<or> modelFormat (chosen\<lparr>quantization := []\<rparr>) = ''pytorch''))"
    by (simp add: llama_def)
  have "click_launch ''http://localhost:9997'' llama (chosen\<lparr>quantization := []\<rparr>) ''u1'' idle
     = \<lparr>ctx = idle, pending = []\<rparr>"
    using launch_guard_incomplete_selection [OF h] by blast
  then show ?thesis by (simp add: llama_def)
qed

text \<open>
  C5. Whenever the flag \<open>isCallingApi\<close> or the flag \<open>isUpdatingModel\<close> is set,
  \<open>launchModel\<close> returns at its first statement: the shared context is unchanged, the
  in-flight flag included, no event is appended to the trace and no request is pending,
  whatever the network does afterwards. The same holds for a click on the launch
  control.
\<close>

theorem launch_guard_in_flight:
  assumes "isCallingApi w \<or> isUpdatingModel w"
  shows "launch url md st uuid w = \<lparr>ctx = w, pending = []\<rparr> \<and>
         click_launch url md st uuid w = \<lparr>ctx = w, pending = []\<rparr> \<and>
         new_events w (ctx (launch url md st uuid w)) = [] \<and>
         isCallingApi (ctx (launch url md st uuid w)) = isCallingApi w \<and>
         run_schedule (launch url md st uuid w) sched = \<lparr>ctx = w, pending = []\<rparr>"
  using assms
  by (simp add: launch_refused click_launch_def new_events_def run_schedule_none)

theorem launch_guard_in_flight_witness:
  "isCallingApi (idle\<lparr>isCallingApi := True\<rparr>) \<and>
   launch ''http://localhost:9997'' llama chosen ''u1'' (idle\<lparr>isCallingApi := True\<rparr>) =
     \<lparr>ctx = idle\<lparr>isCallingApi := True\<rparr>, pending = []\<rparr>"
proof -
  have h: "isCallingApi (idle\<lparr>isCallingApi := True\<rparr>) \<or>
           isUpdatingModel (idle\<lparr>isCallingApi := True\<rparr>)"
    by simp
  from launch_guard_in_flight [OF h] show ?thesis by simp
qed

section \<open>A response body that is not JSON\<close>

text \<open>
  C2, at a run that the claim covers: the first request is answered with status 500 and
  a body that is not JSON, the second with a JSON body. The promise of
  \<open>response.json()\<close> is dropped by the handler, so its rejection does not reach the
  \<open>catch\<close>: the second request is issued, the window is opened, and \<open>console.error\<close>
  is not called.
\<close>

theorem launch_undecodable_body_not_caught:
  "settle (answers \<lparr>status = 500, body_is_json = False\<rparr> \<lparr>status = 200, body_is_json = True\<rparr>)
     2 (launch ''http://localhost:9997'' llama chosen ''u1'' idle) =
   \<lparr>ctx = \<lparr>isCallingApi = False, isUpdatingModel = False, trace =
      [SetIsCallingApi True,
       Fetch ''http://localhost:9997/v1/models'' (post_json (modelDataWithID llama chosen ''u1'')),
       Settled ''http://localhost:9997/v1/models''
         (Fulfilled \<lparr>status = 500, body_is_json = False\<rparr>),
       ResponseJson \<lparr>status = 500, body_is_json = False\<rparr>,
       Fetch ''http://localhost:9997/v1/ui/u1'' (post_json (modelDataWithID llama chosen ''u1'')),
       Settled ''http://localhost:9997/v1/ui/u1''
         (Fulfilled \<lparr>status = 200, body_is_json = True\<rparr>),
       ResponseJson \<lparr>status = 200, body_is_json = True\<rparr>,
       WindowOpen ''http://localhost:9997/u1'' ''_blank'' ''noreferrer'',
       SetIsCallingApi False]\<rparr>,
    pending = []\<rparr>"
  by (simp add: launch_defs idle_def answers_def numeral_2_eq_2)

section \<open>Order of the two requests\<close>

text \<open>
  C3. Whatever the network does and in whatever order (every schedule of settlements),
  in the events of a launch run a request to \<open>/v1/ui/{model_uid}\<close> is preceded by the
  request to \<open>/v1/models\<close> and, after it, by the fulfilment of that request; and at no
  point of the run is more than one request in flight.
\<close>

theorem launch_requests_sequenced:
  assumes "evs = new_events w (ctx (run_schedule (launch url md st uuid w) sched))"
  shows "(\<forall>j rq. j < length evs \<and> evs ! j = Fetch (url @ ''/v1/ui/'' @ uuid) rq \<longrightarrow>
            (\<exists>i k r. i < k \<and> k < j \<and> evs ! i = Fetch (url @ ''/v1/models'') rq \<and>
                      evs ! k = Settled (url @ ''/v1/models'') (Fulfilled r))) \<and>
         (\<forall>n. 0 \<le> in_flight (take n evs) \<and> in_flight (take n evs) \<le> 1)"
  using launch_well_sequenced [of url uuid w md st sched]
  unfolding well_sequenced_def assms by blast

theorem launch_requests_sequenced_witness:
  "new_events idle (ctx (run_schedule (launch ''http://localhost:9997'' llama chosen ''u1'' idle)
      [(0, Fulfilled \<lparr>status = 200, body_is_json = True\<rparr>)])) ! 4 =
     Fetch (''http://localhost:9997'' @ ''/v1/ui/'' @ ''u1'')
       (post_json (modelDataWithID llama chosen ''u1'')) \<and>
   (\<exists>i k r. i < k \<and> k < 4 \<and>
      new_events idle (ctx (run_schedule (launch ''http://localhost:9997'' llama chosen ''u1'' idle)
        [(0, Fulfilled \<lparr>status = 200, body_is_json = True\<rparr>)])) ! i =
        Fetch (''http://localhost:9997'' @ ''/v1/models'')
          (post_json (modelDataWithID llama chosen ''u1'')) \<and>
      new_events idle (ctx (run_schedule (launch ''http://localhost:9997'' llama chosen ''u1'' idle)
        [(0, Fulfilled \<lparr>status = 200, body_is_json = True\<rparr>)])) ! k =
        Settled (''http://localhost:9997'' @ ''/v1/models'') (Fulfilled r))"
proof -
  define evs where "evs = new_events idle
     (ctx (run_schedule (launch ''http://localhost:9997'' llama chosen ''u1'' idle)
        [(0, Fulfilled \<lparr>status = 200, body_is_json = True\<rparr>)]))"
  have at4: "4 < length evs \<and> evs ! 4 =
     Fetch (''http://localhost:9997'' @ ''/v1/ui/'' @ ''u1'')
       (post_json (modelDataWithID llama chosen ''u1''))"
    by (simp add: evs_def run_schedule_def launch_defs idle_def new_events_def)
  from launch_requests_sequenced [OF evs_def] at4
  have "\<exists>i k r. i < k \<and> k < 4 \<and>
          evs ! i = Fetch (''http://localhost:9997'' @ ''/v1/models'')
                      (post_json (modelDataWithID llama chosen ''u1'')) \<and>
          evs ! k = Settled (''http://localhost:9997'' @ ''/v1/models'') (Fulfilled r)"
    by blast
  with at4 show ?thesis unfolding evs_def by blast
qed

section \<open>The successful run\<close>

text \<open>
  C4. A click on the launch control with a complete selection and both flags false,
  when both requests are fulfilled, appends exactly these events: the flag is set, one
  POST goes to \<open>{url}/v1/models\<close>, then one POST to \<open>{url}/v1/ui/{uuid}\<close>, both
  with the same body \<open>{model_uid, model_name, model_format, model_size_in_billions,
  quantization}\<close> built from the one generated id, then \<open>{url}/{uuid}\<close> is opened in a
  new browsing context and the flag is cleared; nothing is left pending. A size is
  chosen when the cell is truthy, as the control tests it. (With \<open>isUpdatingModel\<close>
  set no request is issued, so a run in which both calls succeed has that flag false
  as well.)
\<close>

theorem launch_success_run:
  assumes "\<not> isCallingApi w" and "\<not> isUpdatingModel w"
    and "modelFormat st \<noteq> []" and "truthy_val (modelSize st)"
    and "quantization st \<noteq> [] \<or> (\<not> is_builtin md \<and> modelFormat st \<noteq> ''pytorch'')"
    and "b = \<lparr>model_uid = uuid, req_model_name = model_name md,
               req_model_format = modelFormat st,
               req_model_size_in_billions = modelSize st,
               req_quantization = quantization st\<rparr>"
    and "net (url @ ''/v1/models'') (post_json b) = Fulfilled r1"
    and "net (url @ ''/v1/ui/'' @ uuid) (post_json b) = Fulfilled r2"
    and "2 \<le> n"
  shows "new_events w (ctx (settle net n (click_launch url md st uuid w))) =
           [SetIsCallingApi True,
            Fetch (url @ ''/v1/models'') (post_json b),
            Settled (url @ ''/v1/models'') (Fulfilled r1), ResponseJson r1,
            Fetch (url @ ''/v1/ui/'' @ uuid) (post_json b),
            Settled (url @ ''/v1/ui/'' @ uuid) (Fulfilled r2), ResponseJson r2,
            WindowOpen (url @ ''/'' @ uuid) ''_blank'' ''noreferrer'',
            SetIsCallingApi False] \<and>
         filter is_fetch (new_events w (ctx (settle net n (click_launch url md st uuid w)))) =
           [Fetch (url @ ''/v1/models'') (post_json b),
            Fetch (url @ ''/v1/ui/'' @ uuid) (post_json b)] \<and>
         http_method (post_json b) = ''POST'' \<and> body (post_json b) = b \<and>
         \<not> isCallingApi (ctx (settle net n (click_launch url md st uuid w))) \<and>
         pending (settle net n (click_launch url md st uuid w)) = []"
proof -
  have b: "b = modelDataWithID md st uuid"
    using assms(6) by (simp add: modelDataWithID_def)
  have enabled: "\<not> launch_disabled w md st"
    using assms(1-5) by (simp add: launch_disabled_def truthy_def)
  have "settle net n (click_launch url md st uuid w) =
     \<lparr>ctx = w\<lparr>isCallingApi := False, trace := trace w @
       [SetIsCallingApi True,
        Fetch (url @ ''/v1/models'') (post_json b),
        Settled (url @ ''/v1/models'') (Fulfilled r1), ResponseJson r1,
        Fetch (url @ ''/v1/ui/'' @ uuid) (post_json b),
        Settled (url @ ''/v1/ui/'' @ uuid) (Fulfilled r2), ResponseJson r2,
        WindowOpen (url @ ''/'' @ uuid) ''_blank'' ''noreferrer'',
        SetIsCallingApi False]\<rparr>, pending = []\<rparr>"
    using enabled assms(1,2,7,8,9) unfolding b
    by (simp add: click_launch_def launch_both_resolve)
  then show ?thesis
    by (simp add: new_events_def is_fetch_def post_json_def)
qed

theorem launch_success_run_witness:
  "filter is_fetch (new_events idle (ctx (settle
      (answers \<lparr>status = 200, body_is_json = True\<rparr> \<lparr>status = 200, body_is_json = True\<rparr>) 2
      (click_launch ''http://localhost:9997'' llama chosen ''u1'' idle)))) =
     [Fetch (''http://localhost:9997'' @ ''/v1/models'')
        (post_json \<lparr>model_uid = ''u1'', req_model_name = ''llama-2-chat'',
           req_model_format = ''pytorch'', req_model_size_in_billions = Num (Fin 7),
           req_quantization = ''int4''\<rparr>),
      Fetch (''http://localhost:9997'' @ ''/v1/ui/'' @ ''u1'')
        (post_json \<lparr>model_uid = ''u1'', req_model_name = ''llama-2-chat'',
           req_model_format = ''pytorch'', req_model_size_in_billions = Num (Fin 7),
           req_quantization = ''int4''\<rparr>)] \<and>
   \<not> isCallingApi (ctx (settle
      (answers \<lparr>status = 200, body_is_json = True\<rparr> \<lparr>status = 200, body_is_json = True\<rparr>) 2
      (click_launch ''http://localhost:9997'' llama chosen ''u1'' idle)))"
proof -
  let ?net = "answers \<lparr>status = 200, body_is_json = True\<rparr> \<lparr>status = 200, body_is_json = True\<rparr>"
  let ?b = "\<lparr>model_uid = ''u1'', req_model_name = ''llama-2-chat'',
           req_model_format = ''pytorch'', req_model_size_in_billions = Num (Fin 7),
           req_quantization = ''int4''\<rparr>"
  have h1: "\<not> isCallingApi idle" and h2: "\<not> isUpdatingModel idle"
    by (simp_all add: idle_def)
  have h3: "modelFormat chosen \<noteq> []" and h4: "truthy_val (modelSize chosen)"
    and h5: "quantization chosen \<noteq> [] \<or> (\<not> is_builtin llama \<and> modelFormat chosen \<noteq> ''pytorch'')"
    by (simp_all add: chosen_eval truthy_val_def)
  have h6: "?b = \<lparr>model_uid = ''u1'', req_model_name = model_name llama,
               req_model_format = modelFormat chosen,
               req_model_size_in_billions = modelSize chosen,
               req_quantization = quantization chosen\<rparr>"
    by (simp add: chosen_eval llama_def)
  have h7: "?net (''http://localhost:9997'' @ ''/v1/models'') (post_json ?b) =
              Fulfilled \<lparr>status = 200, body_is_json = True\<rparr>"
    and h8: "?net (''http://localhost:9997'' @ ''/v1/ui/'' @ ''u1'') (post_json ?b) =
              Fulfilled \<lparr>status = 200, body_is_json = True\<rparr>"
    by (simp_all add: answers_def)
  have h9: "(2::nat) \<le> 2" by simp
  note run = launch_success_run [where w = idle and md = llama and st = chosen and b = ?b
      and uuid = "''u1''" and url = "''http://localhost:9997''" and net = ?net
      and ?r1.0 = "\<lparr>status = 200, body_is_json = True\<rparr>"
      and ?r2.0 = "\<lparr>status = 200, body_is_json = True\<rparr>" and n = 2]
  from run [OF h1 h2 h3 h4 h5 h6 h7 h8 h9] show ?thesis by blast
qed

text \<open>
  C9. The status of a response is never read: whatever the two statuses and bodies are,
  a run in which both requests are fulfilled opens \<open>{url}/{uuid}\<close>, clears the flag and
  does not call \<open>console.error\<close>.
\<close>

theorem launch_ignores_status:
  assumes "\<not> isCallingApi w" and "\<not> isUpdatingModel w"
    and "net (url @ ''/v1/models'') (post_json (modelDataWithID md st uuid)) =
           Fulfilled \<lparr>status = s1, body_is_json = j1\<rparr>"
    and "net (url @ ''/v1/ui/'' @ uuid) (post_json (modelDataWithID md st uuid)) =
           Fulfilled \<lparr>status = s2, body_is_json = j2\<rparr>"
    and "2 \<le> n"
  shows "new_events w (ctx (settle net n (launch url md st uuid w))) =
           [SetIsCallingApi True,
            Fetch (url @ ''/v1/models'') (post_json (modelDataWithID md st uuid)),
            Settled (url @ ''/v1/models'') (Fulfilled \<lparr>status = s1, body_is_json = j1\<rparr>),
            ResponseJson \<lparr>status = s1, body_is_json = j1\<rparr>,
            Fetch (url @ ''/v1/ui/'' @ uuid) (post_json (modelDataWithID md st uuid)),
            Settled (url @ ''/v1/ui/'' @ uuid) (Fulfilled \<lparr>status = s2, body_is_json = j2\<rparr>),
            ResponseJson \<lparr>status = s2, body_is_json = j2\<rparr>,
            WindowOpen (url @ ''/'' @ uuid) ''_blank'' ''noreferrer'',
            SetIsCallingApi False] \<and>
         (\<forall>m e. ConsoleError m e \<notin>
            set (new_events w (ctx (settle net n (launch url md st uuid w))))) \<and>
         \<not> isCallingApi (ctx (settle net n (launch url md st uuid w))) \<and>
         pending (settle net n (launch url md st uuid w)) = []"
  using assms by (simp add: launch_both_resolve new_events_def)

theorem launch_ignores_status_witness:
  "last (new_events idle (ctx (settle
      (answers \<lparr>status = 500, body_is_json = True\<rparr> \<lparr>status = 404, body_is_json = True\<rparr>) 2
      (launch ''http://localhost:9997'' llama chosen ''u1'' idle)))) = SetIsCallingApi False \<and>
   WindowOpen ''http://localhost:9997/u1'' ''_blank'' ''noreferrer'' \<in>
     set (new_events idle (ctx (settle
      (answers \<lparr>status = 500, body_is_json = True\<rparr> \<lparr>status = 404, body_is_json = True\<rparr>) 2
      (launch ''http://localhost:9997'' llama chosen ''u1'' idle)))) \<and>
   \<not> isCallingApi (ctx (settle
      (answers \<lparr>status = 500, body_is_json = True\<rparr> \<lparr>status = 404, body_is_json = True\<rparr>) 2
      (launch ''http://localhost:9997'' llama chosen ''u1'' idle)))"
proof -
  let ?net = "answers \<lparr>status = 500, body_is_json = True\<rparr> \<lparr>status = 404, body_is_json = True\<rparr>"
  have h1: "\<not> isCallingApi idle" and h2: "\<not> isUpdatingModel idle"
    by (simp_all add: idle_def)
  have h3: "?net (''http://localhost:9997'' @ ''/v1/models'')
              (post_json (modelDataWithID llama chosen ''u1'')) =
              Fulfilled \<lparr>status = 500, body_is_json = True\<rparr>"
    and h4: "?net (''http://localhost:9997'' @ ''/v1/ui/'' @ ''u1'')
              (post_json (modelDataWithID llama chosen ''u1'')) =
              Fulfilled \<lparr>status = 404, body_is_json = True\<rparr>"
    by (simp_all add: answers_def)
  have h5: "(2::nat) \<le> 2" by simp
  note run = launch_ignores_status [where w = idle and md = llama and st = chosen
      and uuid = "''u1''" and url = "''http://localhost:9997''" and net = ?net
      and ?s1.0 = 500 and ?j1.0 = True and ?s2.0 = 404 and ?j2.0 = True and n = 2]
  from run [OF h1 h2 h3 h4 h5] show ?thesis by simp
qed

section \<open>Derived options\<close>




text \<open>
  C7. In every state the card reaches, the format options are the formats of the
  catalog's variants, each once, in the order in which they first appear; and when a
  format is chosen the size options are, without repetition, the sizes of the variants
  of that format.
\<close>

theorem format_and_size_options_derived:
  assumes "st = run pf md evs"
  shows "set (formatOptions st) = model_format ` set (model_specs md) \<and>
         distinct (formatOptions st) \<and>
         sorted_wrt (\<lambda>a b. first_pos (map model_format (model_specs md)) a
                          < first_pos (map model_format (model_specs md)) b)
           (formatOptions st) \<and>
         (modelFormat st \<noteq> [] \<longrightarrow>
            set (sizeOptions st) =
              model_size_in_billions `
                {v \<in> set (model_specs md). model_format v = modelFormat st} \<and>
            distinct (sizeOptions st))"
proof -
  have cur: "options_current pf md st"
    unfolding assms by (rule options_current_run)
  then have fo: "formatOptions st = new_Set (map model_format (model_specs md))"
    by (simp add: options_current_def)
  have so: "modelFormat st \<noteq> [] \<Longrightarrow>
        sizeOptions st = new_Set (map model_size_in_billions
           (filter (\<lambda>spec. model_format spec = modelFormat st) (model_specs md)))"
    using cur by (simp add: options_current_def)
  show ?thesis
  proof (intro conjI impI)
    show "set (formatOptions st) = model_format ` set (model_specs md)"
      by (simp add: fo set_new_Set)
    show "distinct (formatOptions st)"
      by (simp add: fo distinct_new_Set)
    show "sorted_wrt (\<lambda>a b. first_pos (map model_format (model_specs md)) a
                          < first_pos (map model_format (model_specs md)) b)
           (formatOptions st)"
      unfolding fo by (rule new_Set_first_seen)
  next
    assume "modelFormat st \<noteq> []"
    then show "set (sizeOptions st) =
              model_size_in_billions `
                {v \<in> set (model_specs md). model_format v = modelFormat st}"
      by (simp add: so set_new_Set)
  next
    assume "modelFormat st \<noteq> []"
    then show "distinct (sizeOptions st)"
      by (simp add: so distinct_new_Set)
  qed
qed

theorem format_and_size_options_derived_witness:
  "formatOptions chosen = [''pytorch'', ''ggmlv3''] \<and>
   set (formatOptions chosen) = model_format ` set (model_specs llama) \<and>
   modelFormat chosen \<noteq> [] \<and>
   set (sizeOptions chosen) =
     model_size_in_billions `
       {v \<in> set (model_specs llama). model_format v = modelFormat chosen} \<and>
   distinct (sizeOptions chosen)"
proof -
  have h: "modelFormat chosen \<noteq> []" and f: "formatOptions chosen = [''pytorch'', ''ggmlv3'']"
    by (simp_all add: chosen_eval)
  from format_and_size_options_derived [OF chosen_def] h f
  show ?thesis by blast
qed

section \<open>Selections are retained\<close>

text \<open>
  C8. On a card that shows its parameters, a click on the undo button clears
  \<open>selected\<close> and changes nothing else: format, size and quantization stay as chosen.
\<close>

theorem undo_keeps_selection:
  assumes "selected st"
  shows "ui_step pf md st ClickUndo = st\<lparr>selected := False\<rparr> \<and>
         modelFormat (ui_step pf md st ClickUndo) = modelFormat st \<and>
         modelSize (ui_step pf md st ClickUndo) = modelSize st \<and>
         quantization (ui_step pf md st ClickUndo) = quantization st"
  using assms by (simp add: ui_step_def box_onClick_def run_effects_same)

theorem undo_keeps_selection_witness:
  "selected chosen \<and>
   \<not> selected (ui_step parseFloat_sample llama chosen ClickUndo) \<and>
   modelFormat (ui_step parseFloat_sample llama chosen ClickUndo) = ''pytorch'' \<and>
   modelSize (ui_step parseFloat_sample llama chosen ClickUndo) = Num (Fin 7) \<and>
   quantization (ui_step parseFloat_sample llama chosen ClickUndo) = ''int4''"
proof -
  have h: "selected chosen" by (simp add: chosen_eval)
  from undo_keeps_selection [OF h, of parseFloat_sample llama] h
  show ?thesis by (simp add: chosen_eval)
qed

text \<open>
  C10. Choosing another format leaves the chosen size and quantization as they are, so
  they can be absent from the lists derived for the new format: after \<open>pytorch\<close>,
  \<open>7\<close>, \<open>int4\<close> have been chosen from the sample catalog, choosing \<open>ggmlv3\<close> keeps
  size \<open>7\<close> and quantization \<open>int4\<close>, while the size options become \<open>[13]\<close> and the
  quantization options become empty.
\<close>

theorem format_change_keeps_downstream_selection:
  "modelSize (ui_step pf md st (SelectFormat f)) = modelSize st \<and>
   quantization (ui_step pf md st (SelectFormat f)) = quantization st \<and>
   modelFormat (ui_step parseFloat_sample llama chosen (SelectFormat ''ggmlv3'')) = ''ggmlv3'' \<and>
   modelSize (ui_step parseFloat_sample llama chosen (SelectFormat ''ggmlv3'')) = Num (Fin 7) \<and>
   quantization (ui_step parseFloat_sample llama chosen (SelectFormat ''ggmlv3'')) = ''int4'' \<and>
   sizeOptions (ui_step parseFloat_sample llama chosen (SelectFormat ''ggmlv3'')) = [Fin 13] \<and>
   Fin 7 \<notin>
     set (sizeOptions (ui_step parseFloat_sample llama chosen (SelectFormat ''ggmlv3''))) \<and>
   parseFloat_sample (Num (Fin 7)) \<notin>
     set (sizeOptions (ui_step parseFloat_sample llama chosen (SelectFormat ''ggmlv3''))) \<and>
   ''int4'' \<notin>
     set (quantizationOptions (ui_step parseFloat_sample llama chosen (SelectFormat ''ggmlv3'')))"
proof -
  have frame: "modelSize (ui_step pf md st (SelectFormat f)) = modelSize st \<and>
               quantization (ui_step pf md st (SelectFormat f)) = quantization st"
    by (simp add: ui_step_def effect_defs)
  have after: "ui_step parseFloat_sample llama chosen (SelectFormat ''ggmlv3'') =
     \<lparr>hover = True, selected = True, modelFormat = ''ggmlv3'', modelSize = Num (Fin 7),
      quantization = ''int4'', formatOptions = [''pytorch'', ''ggmlv3''],
      sizeOptions = [Fin 13], quantizationOptions = []\<rparr>"
    by (simp add: chosen_eval ui_step_def effect_defs truthy_val_def new_Set_def set_add_def
          llama_def parseFloat_sample_def strict_eq_def)
  show ?thesis using frame by (simp add: after parseFloat_sample_def)
qed

end
